theory Spec2Isabelle
  imports Main
begin

section \<open>The configuration document\<close>

text \<open>
  \<^verbatim>\<open>update_tauri_config.py\<close> reads a JSON file with \<^verbatim>\<open>json.load\<close>, sets
  \<^verbatim>\<open>config['bundle']['resources']\<close> and writes the document back with
  \<^verbatim>\<open>json.dump(config, f, indent=2, ensure_ascii=False)\<close>.

  A loaded document is a Python value built from \<^verbatim>\<open>None\<close>, \<^verbatim>\<open>bool\<close>, \<^verbatim>\<open>int\<close>,
  \<^verbatim>\<open>str\<close>, \<^verbatim>\<open>list\<close> and \<^verbatim>\<open>dict\<close>. A \<^verbatim>\<open>dict\<close> keeps its keys in insertion order,
  so it is an association list here, and the order is part of the value. Text is a list of
  8-bit characters: the bytes of the file, which is taken to be valid UTF-8, so that a
  character beyond ASCII is the bytes of its encoding, in the file and in a string alike.
  Floating-point numbers are not part of the model: the decoder below answers
  \<open>OutsideModel\<close> for them, and no theorem speaks about a run that ends so. The limits of
  the interpreter (the depth of recursion, the digits of an integer literal) are not
  modelled either.

  The command line is read by \<^verbatim>\<open>main\<close> with \<^verbatim>\<open>argparse\<close>, which lets only the four
  platform names through and then calls \<^verbatim>\<open>update_tauri_config\<close>; the function is modelled
  for every string, as it can be called.
\<close>

datatype json =
    JNull
  | JBool bool
  | JInt int
  | JStr string
  | JArr "json list"
  | JObj "(string \<times> json) list"

type_synonym pydict = "(string \<times> json) list"

text \<open>
  What a run can raise. \<open>OutsideModel\<close> is not a Python exception: it marks an input whose
  decoding needs a float or a character escape beyond ASCII.
\<close>

datatype py_exn =
    JSONDecodeError
  | TypeError
  | KeyError
  | IsADirectoryError
  | OutsideModel

abbreviation DQ :: char where "DQ \<equiv> CHR 0x22"
abbreviation BSL :: char where "BSL \<equiv> CHR 0x5C"
abbreviation LF :: char where "LF \<equiv> CHR 0x0A"

subsection \<open>Dictionary operations\<close>

text \<open>\<^verbatim>\<open>d[k]\<close> as a lookup, \<^verbatim>\<open>k in d\<close>, and \<^verbatim>\<open>d[k] = v\<close>: an existing key keeps its
  position and takes the new value, a new key is appended.\<close>

fun dict_get :: "pydict \<Rightarrow> string \<Rightarrow> json option" where
  "dict_get [] k = None"
| "dict_get ((k', v) # d) k = (if k' = k then Some v else dict_get d k)"

fun dict_set :: "pydict \<Rightarrow> string \<Rightarrow> json \<Rightarrow> pydict" where
  "dict_set [] k v = [(k, v)]"
| "dict_set ((k', v') # d) k v = (if k' = k then (k', v) # d else (k', v') # dict_set d k v)"

fun dict_of_pairs :: "pydict \<Rightarrow> (string \<times> json) list \<Rightarrow> pydict" where
  "dict_of_pairs d [] = d"
| "dict_of_pairs d ((k, v) # ps) = dict_of_pairs (dict_set d k v) ps"

text \<open>The documents \<^verbatim>\<open>json.load\<close> can return: no object repeats a key.\<close>

fun wf_json :: "json \<Rightarrow> bool"
  and wf_elems :: "json list \<Rightarrow> bool"
  and wf_members :: "(string \<times> json) list \<Rightarrow> bool" where
  "wf_json (JArr xs) = wf_elems xs"
| "wf_json (JObj kvs) = (distinct (map fst kvs) \<and> wf_members kvs)"
| "wf_json _ = True"
| "wf_elems [] = True"
| "wf_elems (x # xs) = (wf_json x \<and> wf_elems xs)"
| "wf_members [] = True"
| "wf_members ((k, v) # kvs) = (wf_json v \<and> wf_members kvs)"

section \<open>The platform table\<close>

text \<open>The dictionary \<^verbatim>\<open>platform_resources\<close> of \<^verbatim>\<open>update_tauri_config\<close>, in its order.\<close>

definition platform_resources :: "(string \<times> string list) list" where
  "platform_resources =
    [(''macos-aarch64'',
        [''binaries/macos-aarch64/ffmpeg'', ''binaries/macos-aarch64/ffprobe'']),
     (''macos-x86_64'',
        [''binaries/macos-x86_64/ffmpeg'', ''binaries/macos-x86_64/ffprobe'']),
     (''linux-x86_64'',
        [''binaries/linux-x86_64/ffmpeg'', ''binaries/linux-x86_64/ffprobe'']),
     (''windows-x86_64'',
        [''binaries/windows-x86_64/ffmpeg.exe'', ''binaries/windows-x86_64/ffprobe.exe''])]"

text \<open>\<^verbatim>\<open>platform_resources[platform]\<close>, \<open>None\<close> when \<^verbatim>\<open>platform not in platform_resources\<close>.\<close>

definition resolve_platform :: "string \<Rightarrow> string list option" where
  "resolve_platform platform = map_of platform_resources platform"

text \<open>\<^verbatim>\<open>', '.join(xs)\<close>.\<close>

fun join_comma :: "string list \<Rightarrow> string" where
  "join_comma [] = []"
| "join_comma [x] = x"
| "join_comma (x # y # ys) = x @ '', '' @ join_comma (y # ys)"

text \<open>The last path component has a dot in it.\<close>

definition has_extension :: "string \<Rightarrow> bool" where
  "has_extension p = (CHR ''.'' \<in> set (rev (takeWhile (\<lambda>c. c \<noteq> CHR ''/'') (rev p))))"

section \<open>Writing JSON: \<^verbatim>\<open>json.dump(..., indent=2, ensure_ascii=False)\<close>\<close>

definition hex_digit :: "nat \<Rightarrow> char" where
  "hex_digit n = ''0123456789abcdef'' ! n"

text \<open>The encoder's table \<^verbatim>\<open>ESCAPE_DCT\<close>: backslash, quote and the control characters below
  0x20 are escaped, every other character is written as it is.\<close>

definition escape_char :: "char \<Rightarrow> string" where
  "escape_char c =
    (if c = BSL then [BSL, BSL]
     else if c = DQ then [BSL, DQ]
     else if c = CHR 0x08 then [BSL, CHR ''b'']
     else if c = CHR 0x0C then [BSL, CHR ''f'']
     else if c = LF then [BSL, CHR ''n'']
     else if c = CHR 0x0D then [BSL, CHR ''r'']
     else if c = CHR 0x09 then [BSL, CHR ''t'']
     else if (of_char c :: nat) < 0x20
       then [BSL, CHR ''u'', CHR ''0'', CHR ''0'',
             hex_digit (of_char c div 16), hex_digit (of_char c mod 16)]
     else [c])"

definition encode_basestring :: "string \<Rightarrow> string" where
  "encode_basestring s = DQ # concat (map escape_char s) @ [DQ]"

text \<open>\<^verbatim>\<open>int.__repr__\<close>: decimal digits, a minus sign for a negative number.\<close>

fun digits10 :: "nat \<Rightarrow> string" where
  "digits10 n =
    (if n < 10 then [hex_digit n] else digits10 (n div 10) @ [hex_digit (n mod 10)])"

definition int_repr :: "int \<Rightarrow> string" where
  "int_repr i = (if i < 0 then CHR ''-'' # digits10 (nat (- i)) else digits10 (nat i))"

text \<open>\<^verbatim>\<open>'\n' + _indent * _current_indent_level\<close> with \<^verbatim>\<open>_indent = '  '\<close>.\<close>

definition newline_indent :: "nat \<Rightarrow> string" where
  "newline_indent level = LF # replicate (2 * level) CHR '' ''"

text \<open>
  \<^verbatim>\<open>_iterencode\<close>, \<^verbatim>\<open>_iterencode_list\<close> and \<^verbatim>\<open>_iterencode_dict\<close> of the encoder, with the
  chunks concatenated. The item separator is \<^verbatim>\<open>','\<close> followed by the newline and the
  indentation of the items, the key separator is \<^verbatim>\<open>': '\<close>; an empty container is
  \<^verbatim>\<open>[]\<close> or \<^verbatim>\<open>{}\<close>. The level passed to \<open>encode_elems\<close> and \<open>encode_members\<close> is the
  level of the items.
\<close>

fun encode :: "nat \<Rightarrow> json \<Rightarrow> string"
  and encode_elems :: "nat \<Rightarrow> json list \<Rightarrow> string"
  and encode_members :: "nat \<Rightarrow> (string \<times> json) list \<Rightarrow> string" where
  "encode level JNull = ''null''"
| "encode level (JBool b) = (if b then ''true'' else ''false'')"
| "encode level (JInt i) = int_repr i"
| "encode level (JStr s) = encode_basestring s"
| "encode level (JArr []) = ''[]''"
| "encode level (JArr (x # xs)) =
     ''['' @ newline_indent (Suc level) @ encode_elems (Suc level) (x # xs)
       @ newline_indent level @ '']''"
| "encode level (JObj []) = ''{}''"
| "encode level (JObj (kv # kvs)) =
     ''{'' @ newline_indent (Suc level) @ encode_members (Suc level) (kv # kvs)
       @ newline_indent level @ ''}''"
| "encode_elems level [] = []"
| "encode_elems level [x] = encode level x"
| "encode_elems level (x # y # ys) =
     encode level x @ '','' @ newline_indent level @ encode_elems level (y # ys)"
| "encode_members level [] = []"
| "encode_members level [(k, v)] = encode_basestring k @ '': '' @ encode level v"
| "encode_members level ((k, v) # kv # kvs) =
     encode_basestring k @ '': '' @ encode level v @ '','' @ newline_indent level
       @ encode_members level (kv # kvs)"

definition json_dumps :: "json \<Rightarrow> string" where
  "json_dumps d = encode 0 d"

section \<open>Reading JSON: \<^verbatim>\<open>json.load\<close>\<close>

text \<open>
  The decoder, in two passes: the characters become tokens, the tokens become a value.
  It accepts what \<^verbatim>\<open>json.loads\<close> accepts: white space is blank, tab, line feed and
  carriage return; a string has no raw control character and the escapes
  \<^verbatim>\<open>\" \\ \/ \b \f \n \r \t \uXXXX\<close>; an integer is \<^verbatim>\<open>-?(0|[1-9][0-9]*)\<close>; an object
  that repeats a key keeps the position of the first and the value of the last.
\<close>

datatype token =
    TLBrace | TRBrace | TLBracket | TRBracket | TComma | TColon
  | TString string | TInt int | TTrue | TFalse | TNull

definition is_ws :: "char \<Rightarrow> bool" where
  "is_ws c = (c = CHR '' '' \<or> c = CHR 0x09 \<or> c = LF \<or> c = CHR 0x0D)"

definition is_digit :: "char \<Rightarrow> bool" where
  "is_digit c = (c \<in> set ''0123456789'')"

definition digit_val :: "char \<Rightarrow> nat" where
  "digit_val c = of_char c - 48"

definition hex_val :: "char \<Rightarrow> nat option" where
  "hex_val c =
    (if is_digit c then Some (of_char c - 48)
     else if c \<in> set ''abcdef'' then Some (of_char c - 87)
     else if c \<in> set ''ABCDEF'' then Some (of_char c - 55)
     else None)"

definition decode_hex4 :: "string \<Rightarrow> nat option" where
  "decode_hex4 hs =
    (case map hex_val hs of
       [Some a, Some b, Some c, Some d] \<Rightarrow> Some (((a * 16 + b) * 16 + c) * 16 + d)
     | _ \<Rightarrow> None)"

text \<open>The decoder's table \<^verbatim>\<open>BACKSLASH\<close>.\<close>

definition unescape :: "char \<Rightarrow> char option" where
  "unescape e =
    (if e = DQ then Some DQ
     else if e = BSL then Some BSL
     else if e = CHR ''/'' then Some (CHR ''/'')
     else if e = CHR ''b'' then Some (CHR 0x08)
     else if e = CHR ''f'' then Some (CHR 0x0C)
     else if e = CHR ''n'' then Some LF
     else if e = CHR ''r'' then Some (CHR 0x0D)
     else if e = CHR ''t'' then Some (CHR 0x09)
     else None)"

text \<open>What follows an integer part makes the number a float:
  \<^verbatim>\<open>(\.[0-9]+)?([eE][-+]?[0-9]+)?\<close> matches something.\<close>

definition starts_float :: "string \<Rightarrow> bool" where
  "starts_float cs =
    (case cs of
       c # d # r \<Rightarrow>
         (c = CHR ''.'' \<and> is_digit d)
         \<or> ((c = CHR ''e'' \<or> c = CHR ''E'')
            \<and> (is_digit d
               \<or> ((d = CHR ''+'' \<or> d = CHR ''-'') \<and> (case r of [] \<Rightarrow> False | e # _ \<Rightarrow> is_digit e))))
     | _ \<Rightarrow> False)"

definition push_token :: "token \<Rightarrow> py_exn + token list \<Rightarrow> py_exn + token list" where
  "push_token t r = (case r of Inl e \<Rightarrow> Inl e | Inr ts \<Rightarrow> Inr (t # ts))"

definition int_token :: "bool \<Rightarrow> nat \<Rightarrow> token" where
  "int_token negative n = TInt (if negative then - int n else int n)"

text \<open>
  \<open>lex\<close> is between tokens, \<open>lex_string acc\<close> is inside a string whose characters so far
  are \<open>rev acc\<close>, \<open>lex_int negative n\<close> is inside an integer whose digits so far are worth
  \<open>n\<close>.
\<close>

fun lex :: "string \<Rightarrow> py_exn + token list"
  and lex_string :: "string \<Rightarrow> string \<Rightarrow> py_exn + token list"
  and lex_int :: "bool \<Rightarrow> nat \<Rightarrow> string \<Rightarrow> py_exn + token list" where
  "lex [] = Inr []"
| "lex (c # cs) =
    (if is_ws c then lex cs
     else if c = CHR ''{'' then push_token TLBrace (lex cs)
     else if c = CHR ''}'' then push_token TRBrace (lex cs)
     else if c = CHR ''['' then push_token TLBracket (lex cs)
     else if c = CHR '']'' then push_token TRBracket (lex cs)
     else if c = CHR '','' then push_token TComma (lex cs)
     else if c = CHR '':'' then push_token TColon (lex cs)
     else if c = DQ then lex_string [] cs
     else if c = CHR ''0'' then
       (if starts_float cs then Inl OutsideModel else push_token (TInt 0) (lex cs))
     else if is_digit c then lex_int False (digit_val c) cs
     else if c = CHR ''-'' then
       (case cs of
          [] \<Rightarrow> Inl JSONDecodeError
        | d # ds \<Rightarrow>
            if d = CHR ''0'' then
              (if starts_float ds then Inl OutsideModel else push_token (TInt 0) (lex ds))
            else if is_digit d then lex_int True (digit_val d) ds
            else if take 8 cs = ''Infinity'' then Inl OutsideModel
            else Inl JSONDecodeError)
     else if c = CHR ''t'' \<and> take 3 cs = ''rue'' then push_token TTrue (lex (drop 3 cs))
     else if c = CHR ''f'' \<and> take 4 cs = ''alse'' then push_token TFalse (lex (drop 4 cs))
     else if c = CHR ''n'' \<and> take 3 cs = ''ull'' then push_token TNull (lex (drop 3 cs))
     else if c = CHR ''N'' \<and> take 2 cs = ''aN'' then Inl OutsideModel
     else if c = CHR ''I'' \<and> take 7 cs = ''nfinity'' then Inl OutsideModel
     else Inl JSONDecodeError)"
| "lex_string acc [] = Inl JSONDecodeError"
| "lex_string acc (c # cs) =
    (if c = DQ then push_token (TString (rev acc)) (lex cs)
     else if c = BSL then
       (case cs of
          [] \<Rightarrow> Inl JSONDecodeError
        | e # es \<Rightarrow>
            if e = CHR ''u'' then
              (case decode_hex4 (take 4 es) of
                 None \<Rightarrow> Inl JSONDecodeError
               | Some n \<Rightarrow>
                   if n < 0x80 then lex_string (char_of n # acc) (drop 4 es)
                   else Inl OutsideModel)
            else
              (case unescape e of
                 None \<Rightarrow> Inl JSONDecodeError
               | Some ch \<Rightarrow> lex_string (ch # acc) es))
     else if (of_char c :: nat) < 0x20 then Inl JSONDecodeError
     else lex_string (c # acc) cs)"
| "lex_int negative n [] = Inr [int_token negative n]"
| "lex_int negative n (c # cs) =
    (if is_digit c then lex_int negative (10 * n + digit_val c) cs
     else if starts_float (c # cs) then Inl OutsideModel
     else push_token (int_token negative n) (lex (c # cs)))"

text \<open>
  \<^verbatim>\<open>scan_once\<close>, \<^verbatim>\<open>JSONArray\<close> and \<^verbatim>\<open>JSONObject\<close> over the tokens. \<open>parse_elems\<close> and
  \<open>parse_pairs\<close> are the two loops, entered after the opening bracket when the container
  is not empty; each returns the items and the tokens left. A loop goes round again only
  on fewer tokens than it started with, which is always so, as a value takes at least
  one token. The pairs of an object become a \<^verbatim>\<open>dict\<close> with \<open>dict_of_pairs\<close>.
\<close>

function parse_value :: "token list \<Rightarrow> py_exn + (json \<times> token list)"
  and parse_elems :: "token list \<Rightarrow> py_exn + (json list \<times> token list)"
  and parse_pairs :: "token list \<Rightarrow> py_exn + ((string \<times> json) list \<times> token list)" where
  "parse_value [] = Inl JSONDecodeError"
| "parse_value (t # ts) =
    (case t of
       TNull \<Rightarrow> Inr (JNull, ts)
     | TTrue \<Rightarrow> Inr (JBool True, ts)
     | TFalse \<Rightarrow> Inr (JBool False, ts)
     | TInt i \<Rightarrow> Inr (JInt i, ts)
     | TString s \<Rightarrow> Inr (JStr s, ts)
     | TLBracket \<Rightarrow>
         (case ts of
            TRBracket # r \<Rightarrow> Inr (JArr [], r)
          | _ \<Rightarrow>
              (case parse_elems ts of
                 Inl e \<Rightarrow> Inl e
               | Inr (xs, r) \<Rightarrow> Inr (JArr xs, r)))
     | TLBrace \<Rightarrow>
         (case ts of
            TRBrace # r \<Rightarrow> Inr (JObj [], r)
          | _ \<Rightarrow>
              (case parse_pairs ts of
                 Inl e \<Rightarrow> Inl e
               | Inr (ps, r) \<Rightarrow> Inr (JObj (dict_of_pairs [] ps), r)))
     | _ \<Rightarrow> Inl JSONDecodeError)"
| "parse_elems ts =
    (case parse_value ts of
       Inl e \<Rightarrow> Inl e
     | Inr (x, r) \<Rightarrow>
         (case r of
            TRBracket # r' \<Rightarrow> Inr ([x], r')
          | TComma # r' \<Rightarrow>
              if length r' < length ts then
                (case parse_elems r' of
                   Inl e \<Rightarrow> Inl e
                 | Inr (xs, r'') \<Rightarrow> Inr (x # xs, r''))
              else Inl JSONDecodeError
          | _ \<Rightarrow> Inl JSONDecodeError))"
| "parse_pairs ts =
    (case ts of
       TString k # TColon # ts' \<Rightarrow>
         (case parse_value ts' of
            Inl e \<Rightarrow> Inl e
          | Inr (v, r) \<Rightarrow>
              (case r of
                 TRBrace # r' \<Rightarrow> Inr ([(k, v)], r')
               | TComma # r' \<Rightarrow>
                   if length r' < length ts then
                     (case parse_pairs r' of
                        Inl e \<Rightarrow> Inl e
                      | Inr (ps, r'') \<Rightarrow> Inr ((k, v) # ps, r''))
                   else Inl JSONDecodeError
               | _ \<Rightarrow> Inl JSONDecodeError))
     | _ \<Rightarrow> Inl JSONDecodeError)"
  by pat_completeness auto
termination
  by (relation "measure (\<lambda>x. case x of Inl ts \<Rightarrow> 2 * length ts
                                 | Inr (Inl ts) \<Rightarrow> 2 * length ts + 1
                                 | Inr (Inr ts) \<Rightarrow> 2 * length ts + 1)") auto

definition json_loads :: "string \<Rightarrow> py_exn + json" where
  "json_loads s =
    (case lex s of
       Inl e \<Rightarrow> Inl e
     | Inr ts \<Rightarrow>
         (case parse_value ts of
            Inl e \<Rightarrow> Inl e
          | Inr (v, r) \<Rightarrow> if r = [] then Inr v else Inl JSONDecodeError))"

text \<open>
  The tokens of a document, in the order the encoder writes them: the decoder's lexer
  finds them in the text, and the parser builds the document from them again.
\<close>

fun tokens :: "json \<Rightarrow> token list"
  and tokens_elems :: "json list \<Rightarrow> token list"
  and tokens_members :: "(string \<times> json) list \<Rightarrow> token list" where
  "tokens JNull = [TNull]"
| "tokens (JBool b) = [if b then TTrue else TFalse]"
| "tokens (JInt i) = [TInt i]"
| "tokens (JStr s) = [TString s]"
| "tokens (JArr []) = [TLBracket, TRBracket]"
| "tokens (JArr (x # xs)) = TLBracket # tokens_elems (x # xs) @ [TRBracket]"
| "tokens (JObj []) = [TLBrace, TRBrace]"
| "tokens (JObj (kv # kvs)) = TLBrace # tokens_members (kv # kvs) @ [TRBrace]"
| "tokens_elems [] = []"
| "tokens_elems [x] = tokens x"
| "tokens_elems (x # y # ys) = tokens x @ TComma # tokens_elems (y # ys)"
| "tokens_members [] = []"
| "tokens_members [(k, v)] = TString k # TColon # tokens v"
| "tokens_members ((k, v) # kv # kvs) =
     TString k # TColon # tokens v @ TComma # tokens_members (kv # kvs)"

text \<open>\<open>push_token\<close> for several tokens.\<close>

definition push_tokens :: "token list \<Rightarrow> py_exn + token list \<Rightarrow> py_exn + token list" where
  "push_tokens ts r = (case r of Inl e \<Rightarrow> Inl e | Inr ts' \<Rightarrow> Inr (ts @ ts'))"

text \<open>What may follow a number in the encoder's output: the end, a comma or a line feed.\<close>

definition ends_number :: "string \<Rightarrow> bool" where
  "ends_number rest = (case rest of [] \<Rightarrow> True | c # cs \<Rightarrow> c = CHR '','' \<or> c = LF)"

section \<open>The update of the document\<close>

text \<open>
  The operations of lines 58 to 61 on a loaded value: \<^verbatim>\<open>'bundle' in config\<close>,
  \<^verbatim>\<open>config[key] = value\<close> and \<^verbatim>\<open>config[key]\<close>. Python defines them for every value: on a
  list \<^verbatim>\<open>in\<close> compares the elements, on a string it looks for a substring, on a number,
  a boolean or \<^verbatim>\<open>None\<close> it raises \<^verbatim>\<open>TypeError\<close>; an item with a string key can be read
  or set on a \<^verbatim>\<open>dict\<close> only.
\<close>

fun contains_str :: "string \<Rightarrow> string \<Rightarrow> bool" where
  "contains_str k [] = (k = [])"
| "contains_str k (c # cs) = (take (length k) (c # cs) = k \<or> contains_str k cs)"

fun py_contains :: "string \<Rightarrow> json \<Rightarrow> py_exn + bool" where
  "py_contains k (JObj d) = Inr (dict_get d k \<noteq> None)"
| "py_contains k (JArr xs) = Inr (JStr k \<in> set xs)"
| "py_contains k (JStr s) = Inr (contains_str k s)"
| "py_contains k _ = Inl TypeError"

fun py_setitem :: "json \<Rightarrow> string \<Rightarrow> json \<Rightarrow> py_exn + json" where
  "py_setitem (JObj d) k v = Inr (JObj (dict_set d k v))"
| "py_setitem _ k v = Inl TypeError"

fun py_getitem :: "json \<Rightarrow> string \<Rightarrow> py_exn + json" where
  "py_getitem (JObj d) k = (case dict_get d k of None \<Rightarrow> Inl KeyError | Some v \<Rightarrow> Inr v)"
| "py_getitem _ k = Inl TypeError"

text \<open>The value is a \<^verbatim>\<open>dict\<close>.\<close>

fun is_object :: "json \<Rightarrow> bool" where
  "is_object (JObj d) = True"
| "is_object _ = False"

text \<open>
  Lines 58 to 61:
  \<^verbatim>\<open>
    if 'bundle' not in config:
        config['bundle'] = {}
    config['bundle']['resources'] = resources
  \<close>
  The inner dictionary is changed in place, so the document holds the changed dictionary
  at the position the key \<^verbatim>\<open>bundle\<close> already has.
\<close>

definition apply_resources :: "json \<Rightarrow> string list \<Rightarrow> py_exn + json" where
  "apply_resources config resources =
    (case py_contains ''bundle'' config of
       Inl e \<Rightarrow> Inl e
     | Inr present \<Rightarrow>
         (case (if \<not> present then py_setitem config ''bundle'' (JObj []) else Inr config) of
            Inl e \<Rightarrow> Inl e
          | Inr config1 \<Rightarrow>
              (case py_getitem config1 ''bundle'' of
                 Inl e \<Rightarrow> Inl e
               | Inr bundle \<Rightarrow>
                   (case py_setitem bundle ''resources'' (JArr (map JStr resources)) of
                      Inl e \<Rightarrow> Inl e
                    | Inr bundle1 \<Rightarrow> py_setitem config1 ''bundle'' bundle1))))"

section \<open>The run\<close>

text \<open>
  The world of a run: the file system (a path names a file with its text, a directory, or
  nothing), what was printed on the two streams, and the file operations done so far.
  Paths are compared as they are written. Failures of the operating system other than a
  missing file or a directory in the place of the file (permissions, a full disk) are
  outside the model.
\<close>

datatype node = File string | Dir

datatype fs_op = Exists string | OpenRead string | OpenWrite string

record world =
  fs :: "string \<Rightarrow> node option"
  stdout :: string
  stderr :: string
  trace :: "fs_op list"

text \<open>How the process ends: \<^verbatim>\<open>sys.exit(n)\<close> or the return of the function (status 0), or
  an exception nobody catches, which the interpreter reports on the error stream as a
  traceback before it exits with status 1.\<close>

datatype outcome = Exit nat | Uncaught py_exn

fun exit_status :: "outcome \<Rightarrow> nat" where
  "exit_status (Exit n) = n"
| "exit_status (Uncaught e) = 1"

abbreviation SQ :: char where "SQ \<equiv> CHR 0x27"

definition print_out :: "string \<Rightarrow> world \<Rightarrow> world" where
  "print_out s w = w\<lparr>stdout := stdout w @ s @ [LF]\<rparr>"

definition print_err :: "string \<Rightarrow> world \<Rightarrow> world" where
  "print_err s w = w\<lparr>stderr := stderr w @ s @ [LF]\<rparr>"

definition record_op :: "fs_op \<Rightarrow> world \<Rightarrow> world" where
  "record_op op w = w\<lparr>trace := trace w @ [op]\<rparr>"

text \<open>\<^verbatim>\<open>repr\<close> of a string and of a list of strings, as the f-string of line 70 formats
  \<^verbatim>\<open>resources\<close>: single quotes unless the string has a single quote and no double quote;
  the quote and the backslash escaped; control characters as \<^verbatim>\<open>\t \n \r \xhh\<close>. The
  strings of the table are printable ASCII.\<close>

definition repr_char :: "char \<Rightarrow> char \<Rightarrow> string" where
  "repr_char q c =
    (if c = q \<or> c = BSL then [BSL, c]
     else if c = CHR 0x09 then [BSL, CHR ''t'']
     else if c = LF then [BSL, CHR ''n'']
     else if c = CHR 0x0D then [BSL, CHR ''r'']
     else if (of_char c :: nat) < 0x20 \<or> c = CHR 0x7F
       then [BSL, CHR ''x'', hex_digit (of_char c div 16), hex_digit (of_char c mod 16)]
     else [c])"

definition str_repr :: "string \<Rightarrow> string" where
  "str_repr s =
    (let q = (if SQ \<in> set s \<and> DQ \<notin> set s then DQ else SQ)
     in q # concat (map (repr_char q) s) @ [q])"

definition list_repr :: "string list \<Rightarrow> string" where
  "list_repr xs = ''['' @ join_comma (map str_repr xs) @ '']''"

text \<open>Lines 65 and 66: what \<^verbatim>\<open>json.dump\<close> writes, then \<^verbatim>\<open>f.write('\n')\<close>.\<close>

definition config_text :: "json \<Rightarrow> string" where
  "config_text config = json_dumps config @ [LF]"

text \<open>
  For the layout of the written text: the number of blanks after each line feed of a
  text, and the nesting level of each line of a document after the first, a closing
  bracket standing at the level of its opening line.
\<close>

fun line_indents :: "string \<Rightarrow> nat list" where
  "line_indents [] = []"
| "line_indents (c # cs) =
    (if c = LF then length (takeWhile (\<lambda>x. x = CHR '' '') cs) # line_indents cs
     else line_indents cs)"

fun line_levels :: "nat \<Rightarrow> json \<Rightarrow> nat list"
  and line_levels_elems :: "nat \<Rightarrow> json list \<Rightarrow> nat list"
  and line_levels_members :: "nat \<Rightarrow> (string \<times> json) list \<Rightarrow> nat list" where
  "line_levels level (JArr (x # xs)) =
     Suc level # line_levels_elems (Suc level) (x # xs) @ [level]"
| "line_levels level (JObj (kv # kvs)) =
     Suc level # line_levels_members (Suc level) (kv # kvs) @ [level]"
| "line_levels level _ = []"
| "line_levels_elems level [] = []"
| "line_levels_elems level [x] = line_levels level x"
| "line_levels_elems level (x # y # ys) =
     line_levels level x @ level # line_levels_elems level (y # ys)"
| "line_levels_members level [] = []"
| "line_levels_members level [(k, v)] = line_levels level v"
| "line_levels_members level ((k, v) # kv # kvs) =
     line_levels level v @ level # line_levels_members level (kv # kvs)"

text \<open>
  \<^verbatim>\<open>update_tauri_config(platform, config_path)\<close>, lines 13 to 70, statement by statement.
\<close>

definition update_tauri_config :: "string \<Rightarrow> string \<Rightarrow> world \<Rightarrow> world \<times> outcome" where
  "update_tauri_config platform config_path w =
    (case resolve_platform platform of
       None \<Rightarrow>
         (print_err (''Valid platforms: '' @ join_comma (map fst platform_resources))
            (print_err (''Error: Unknown platform '' @ [SQ] @ platform @ [SQ]) w),
          Exit 1)
     | Some resources \<Rightarrow>
         (let w1 = record_op (Exists config_path) w in
          case fs w1 config_path of
            None \<Rightarrow>
              (print_err (''Error: Config file '' @ [SQ] @ config_path @ [SQ] @ '' not found'') w1,
               Exit 1)
          | Some nd \<Rightarrow>
              (let w2 = record_op (OpenRead config_path) w1 in
               case nd of
                 Dir \<Rightarrow> (w2, Uncaught IsADirectoryError)
               | File text \<Rightarrow>
                   (case json_loads text of
                      Inl e \<Rightarrow> (w2, Uncaught e)
                    | Inr config \<Rightarrow>
                        (case apply_resources config resources of
                           Inl e \<Rightarrow> (w2, Uncaught e)
                         | Inr config1 \<Rightarrow>
                             (let w3 = (record_op (OpenWrite config_path) w2)
                                         \<lparr>fs := (fs w2)(config_path \<mapsto>
                                                  File (config_text config1))\<rparr>;
                                  w4 = print_out (''Successfully updated '' @ config_path) w3;
                                  w5 = print_out (''Platform: '' @ platform) w4;
                                  w6 = print_out (''Resources: '' @ list_repr resources) w5
                              in (w6, Exit 0)))))))"

section \<open>Properties of the update\<close>

lemma dict_get_set_same: "dict_get (dict_set d k v) k = Some v"
  by (induction d) auto


lemma dict_set_set: "dict_set (dict_set d k v) k v' = dict_set d k v'"
  by (induction d) auto

lemma apply_resources_not_object:
  "(\<And>m. d \<noteq> JObj m) \<Longrightarrow> apply_resources d rs = Inl TypeError"
  by (cases d) (auto simp: apply_resources_def)

lemma apply_resources_absent:
  "dict_get d ''bundle'' = None \<Longrightarrow>
   apply_resources (JObj d) rs =
     Inr (JObj (dict_set d ''bundle'' (JObj [(''resources'', JArr (map JStr rs))])))"
  by (simp add: apply_resources_def dict_get_set_same dict_set_set)

lemma apply_resources_object:
  "dict_get d ''bundle'' = Some (JObj b) \<Longrightarrow>
   apply_resources (JObj d) rs =
     Inr (JObj (dict_set d ''bundle'' (JObj (dict_set b ''resources'' (JArr (map JStr rs))))))"
  by (simp add: apply_resources_def)

lemma apply_resources_bad_bundle:
  "dict_get d ''bundle'' = Some b \<Longrightarrow> (\<And>m. b \<noteq> JObj m) \<Longrightarrow>
   apply_resources (JObj d) rs = Inl TypeError"
  by (cases b) (auto simp: apply_resources_def)

text \<open>
  Claim C5 (idempotence). Applying the resources of a platform to a document and then
  applying them again to the result gives what applying them once gives, for every
  document and every list of resources; where the first application raises, so does the
  whole.
\<close>

theorem apply_resources_idempotent:
  "(case apply_resources d rs of Inl e \<Rightarrow> Inl e | Inr d1 \<Rightarrow> apply_resources d1 rs)
     = apply_resources d rs"
proof (cases "\<exists>m. d = JObj m")
  case False
  then show ?thesis by (simp add: apply_resources_not_object)
next
  case True
  then obtain m where d: "d = JObj m" by blast
  show ?thesis
  proof (cases "dict_get m ''bundle''")
    case None
    then show ?thesis
      by (simp add: d apply_resources_absent apply_resources_object dict_get_set_same dict_set_set)
  next
    case (Some b)
    show ?thesis
    proof (cases "\<exists>bm. b = JObj bm")
      case False
      with Some show ?thesis by (simp add: d apply_resources_bad_bundle)
    next
      case True
      then obtain bm where "b = JObj bm" by blast
      with Some show ?thesis
        by (simp add: d apply_resources_object dict_get_set_same dict_set_set)
    qed
  qed
qed

theorem apply_resources_idempotent_witness:
  "(case apply_resources (JObj [(''otherKey'', JInt 1)])
           [''binaries/linux-x86_64/ffmpeg'', ''binaries/linux-x86_64/ffprobe''] of
      Inl e \<Rightarrow> Inl e
    | Inr d1 \<Rightarrow>
        apply_resources d1 [''binaries/linux-x86_64/ffmpeg'', ''binaries/linux-x86_64/ffprobe''])
   = Inr (JObj [(''otherKey'', JInt 1),
                (''bundle'', JObj [(''resources'',
                   JArr [JStr ''binaries/linux-x86_64/ffmpeg'',
                         JStr ''binaries/linux-x86_64/ffprobe''])])])"
  using apply_resources_idempotent
    [where d = "JObj [(''otherKey'', JInt 1)]"
       and rs = "[''binaries/linux-x86_64/ffmpeg'', ''binaries/linux-x86_64/ffprobe'']"]
  by (simp add: apply_resources_def)


lemma apply_resources_bundle_not_object:
  "dict_get d ''bundle'' = Some b \<Longrightarrow> \<not> is_object b \<Longrightarrow>
   apply_resources (JObj d) rs = Inl TypeError"
  by (cases b) (auto simp: apply_resources_def)

lemma resolve_linux:
  "resolve_platform ''linux-x86_64''
     = Some [''binaries/linux-x86_64/ffmpeg'', ''binaries/linux-x86_64/ffprobe'']"
  by (simp add: resolve_platform_def platform_resources_def)

lemma loads_other_key: "json_loads ''{\"otherKey\": 1}'' = Inr (JObj [(''otherKey'', JInt 1)])"
  by code_simp

lemma dumps_other_key:
  "json_dumps (JObj [(''otherKey'', JInt 1),
      (''bundle'', JObj [(''resources'',
         JArr [JStr ''binaries/linux-x86_64/ffmpeg'', JStr ''binaries/linux-x86_64/ffprobe''])])])
   = ''{'' @ [LF]
     @ ''  \"otherKey\": 1,'' @ [LF]
     @ ''  \"bundle\": {'' @ [LF]
     @ ''    \"resources\": ['' @ [LF]
     @ ''      \"binaries/linux-x86_64/ffmpeg\",'' @ [LF]
     @ ''      \"binaries/linux-x86_64/ffprobe\"'' @ [LF]
     @ ''    ]'' @ [LF]
     @ ''  }'' @ [LF]
     @ ''}''"
  by code_simp

lemma list_repr_linux:
  "list_repr [''binaries/linux-x86_64/ffmpeg'', ''binaries/linux-x86_64/ffprobe'']
    = ''['' @ [SQ] @ ''binaries/linux-x86_64/ffmpeg'' @ [SQ] @ '', '' @ [SQ]
       @ ''binaries/linux-x86_64/ffprobe'' @ [SQ] @ '']''"
  by code_simp

text \<open>
  Claim C4. Applying the resources of \<^verbatim>\<open>linux-x86_64\<close> to the document
  \<^verbatim>\<open>{"otherKey": 1}\<close>, which has no key \<^verbatim>\<open>bundle\<close>, gives \<^verbatim>\<open>{"otherKey": 1, "bundle":
  {"resources": ["binaries/linux-x86_64/ffmpeg", "binaries/linux-x86_64/ffprobe"]}}\<close>:
  the key is created after the existing one, with an object that holds the resources.
  The third part runs the whole script on a file with that text.
\<close>

theorem missing_bundle_created:
  "resolve_platform ''linux-x86_64''
     = Some [''binaries/linux-x86_64/ffmpeg'', ''binaries/linux-x86_64/ffprobe'']
   \<and> apply_resources (JObj [(''otherKey'', JInt 1)])
       [''binaries/linux-x86_64/ffmpeg'', ''binaries/linux-x86_64/ffprobe'']
     = Inr (JObj [(''otherKey'', JInt 1),
                  (''bundle'', JObj [(''resources'',
                     JArr [JStr ''binaries/linux-x86_64/ffmpeg'',
                           JStr ''binaries/linux-x86_64/ffprobe''])])])
   \<and> update_tauri_config ''linux-x86_64'' ''tauri.conf.json''
       \<lparr>fs = [''tauri.conf.json'' \<mapsto> File ''{\"otherKey\": 1}''],
        stdout = [], stderr = [], trace = []\<rparr>
     = (\<lparr>fs = [''tauri.conf.json'' \<mapsto> File
               (''{'' @ [LF]
                @ ''  \"otherKey\": 1,'' @ [LF]
                @ ''  \"bundle\": {'' @ [LF]
                @ ''    \"resources\": ['' @ [LF]
                @ ''      \"binaries/linux-x86_64/ffmpeg\",'' @ [LF]
                @ ''      \"binaries/linux-x86_64/ffprobe\"'' @ [LF]
                @ ''    ]'' @ [LF]
                @ ''  }'' @ [LF]
                @ ''}'' @ [LF])],
         stdout = ''Successfully updated tauri.conf.json'' @ [LF]
                @ ''Platform: linux-x86_64'' @ [LF]
                @ ''Resources: ['' @ [SQ] @ ''binaries/linux-x86_64/ffmpeg'' @ [SQ] @ '', '' @ [SQ]
                @ ''binaries/linux-x86_64/ffprobe'' @ [SQ] @ '']'' @ [LF],
         stderr = [],
         trace = [Exists ''tauri.conf.json'', OpenRead ''tauri.conf.json'',
                  OpenWrite ''tauri.conf.json'']\<rparr>,
        Exit 0)"
proof -
  have a: "apply_resources (JObj [(''otherKey'', JInt 1)])
       [''binaries/linux-x86_64/ffmpeg'', ''binaries/linux-x86_64/ffprobe'']
     = Inr (JObj [(''otherKey'', JInt 1),
                  (''bundle'', JObj [(''resources'',
                     JArr [JStr ''binaries/linux-x86_64/ffmpeg'',
                           JStr ''binaries/linux-x86_64/ffprobe''])])])"
    by (simp add: apply_resources_def)
  show ?thesis
    by (simp add: update_tauri_config_def resolve_linux a loads_other_key dumps_other_key
        list_repr_linux record_op_def print_out_def config_text_def)
qed

theorem missing_bundle_created_witness:
  "apply_resources (JObj [(''otherKey'', JInt 1)])
       [''binaries/linux-x86_64/ffmpeg'', ''binaries/linux-x86_64/ffprobe'']
     = Inr (JObj [(''otherKey'', JInt 1),
                  (''bundle'', JObj [(''resources'',
                     JArr [JStr ''binaries/linux-x86_64/ffmpeg'',
                           JStr ''binaries/linux-x86_64/ffprobe''])])])"
  by (rule conjunct1 [OF conjunct2 [OF missing_bundle_created]])

section \<open>Properties of the platform table\<close>

lemma resolve_platform_None:
  "p \<notin> {''macos-aarch64'', ''macos-x86_64'', ''linux-x86_64'', ''windows-x86_64''}
   \<longleftrightarrow> resolve_platform p = None"
  by (simp add: resolve_platform_def platform_resources_def)

lemma valid_platforms_text:
  "join_comma (map fst platform_resources)
     = ''macos-aarch64, macos-x86_64, linux-x86_64, windows-x86_64''"
  by (simp add: platform_resources_def)

text \<open>
  Claim C2. Each of the four supported platform identifiers resolves to exactly two
  paths, the ffmpeg path first and the ffprobe path second, both under
  \<^verbatim>\<open>binaries/<platform>/\<close>; the two paths of \<^verbatim>\<open>windows-x86_64\<close> end in \<^verbatim>\<open>.exe\<close>, and
  the paths of the other three platforms have no extension.
\<close>

theorem resolve_platform_two_paths:
  assumes "p \<in> {''macos-aarch64'', ''macos-x86_64'', ''linux-x86_64'', ''windows-x86_64''}"
  shows "\<exists>ffmpeg ffprobe.
           resolve_platform p = Some [ffmpeg, ffprobe]
         \<and> ffmpeg = ''binaries/'' @ p @ ''/ffmpeg'' @ (if p = ''windows-x86_64'' then ''.exe'' else [])
         \<and> ffprobe = ''binaries/'' @ p @ ''/ffprobe'' @ (if p = ''windows-x86_64'' then ''.exe'' else [])
         \<and> (has_extension ffmpeg \<longleftrightarrow> p = ''windows-x86_64'')
         \<and> (has_extension ffprobe \<longleftrightarrow> p = ''windows-x86_64'')"
  using assms
  by (auto simp: resolve_platform_def platform_resources_def has_extension_def)

theorem resolve_platform_two_paths_witness:
  "\<exists>ffmpeg ffprobe.
      resolve_platform ''windows-x86_64'' = Some [ffmpeg, ffprobe]
    \<and> ffmpeg = ''binaries/windows-x86_64/ffmpeg.exe''
    \<and> ffprobe = ''binaries/windows-x86_64/ffprobe.exe''
    \<and> has_extension ffmpeg \<and> has_extension ffprobe"
  using resolve_platform_two_paths [of "''windows-x86_64''"]
  by simp

section \<open>Properties of the run\<close>

text \<open>
  Claim C6. For a platform identifier that is not one of the four supported ones the run
  writes the error and the four valid identifiers on the error stream, exits with
  status 1, and does no file operation: the file system and the record of file operations
  are as they were, and nothing is printed on the output stream.
\<close>

theorem unknown_platform_rejected:
  assumes "platform \<notin> {''macos-aarch64'', ''macos-x86_64'', ''linux-x86_64'', ''windows-x86_64''}"
    and "update_tauri_config platform config_path w = (w1, r)"
  shows "r = Exit 1 \<and> exit_status r \<noteq> 0
       \<and> stderr w1 = stderr w @ ''Error: Unknown platform '' @ [SQ] @ platform @ [SQ] @ [LF]
             @ ''Valid platforms: macos-aarch64, macos-x86_64, linux-x86_64, windows-x86_64'' @ [LF]
       \<and> stdout w1 = stdout w \<and> fs w1 = fs w \<and> trace w1 = trace w"
proof -
  have n: "resolve_platform platform = None"
    using assms(1) by (rule iffD1 [OF resolve_platform_None])
  have "update_tauri_config platform config_path w =
          (print_err (''Valid platforms: '' @ join_comma (map fst platform_resources))
             (print_err (''Error: Unknown platform '' @ [SQ] @ platform @ [SQ]) w), Exit 1)"
    by (simp add: update_tauri_config_def n)
  with assms(2) have w1: "w1 = print_err (''Valid platforms: '' @ join_comma (map fst platform_resources))
             (print_err (''Error: Unknown platform '' @ [SQ] @ platform @ [SQ]) w)"
    and r: "r = Exit 1" by simp_all
  show ?thesis
    by (simp add: w1 r print_err_def valid_platforms_text)
qed

theorem unknown_platform_rejected_witness:
  "snd (update_tauri_config ''linux-arm64'' ''tauri.conf.json''
          \<lparr>fs = [''tauri.conf.json'' \<mapsto> File ''{}''], stdout = [], stderr = [], trace = []\<rparr>) = Exit 1
   \<and> trace (fst (update_tauri_config ''linux-arm64'' ''tauri.conf.json''
          \<lparr>fs = [''tauri.conf.json'' \<mapsto> File ''{}''], stdout = [], stderr = [], trace = []\<rparr>)) = []"
  using unknown_platform_rejected [where platform = "''linux-arm64''" and config_path = "''tauri.conf.json''"
      and w = "\<lparr>fs = [''tauri.conf.json'' \<mapsto> File ''{}''], stdout = [], stderr = [], trace = []\<rparr>",
      OF _ surjective_pairing]
  by simp

text \<open>
  Claim C7. For a supported platform and a path that names nothing, the run reports the
  missing file on the error stream, exits with status 1, and creates no file: the file
  system is as it was, and the only file operation is the test for existence.
\<close>

theorem missing_config_file:
  assumes "resolve_platform platform = Some rs"
    and "fs w config_path = None"
    and "update_tauri_config platform config_path w = (w1, r)"
  shows "r = Exit 1 \<and> exit_status r \<noteq> 0
       \<and> stderr w1 = stderr w @ ''Error: Config file '' @ [SQ] @ config_path @ [SQ] @ '' not found'' @ [LF]
       \<and> fs w1 = fs w \<and> fs w1 config_path = None
       \<and> trace w1 = trace w @ [Exists config_path] \<and> stdout w1 = stdout w"
  using assms
  by (auto simp: update_tauri_config_def print_err_def record_op_def Let_def)

theorem missing_config_file_witness:
  "snd (update_tauri_config ''linux-x86_64'' ''nowhere.json''
          \<lparr>fs = Map.empty, stdout = [], stderr = [], trace = []\<rparr>) = Exit 1
   \<and> fs (fst (update_tauri_config ''linux-x86_64'' ''nowhere.json''
          \<lparr>fs = Map.empty, stdout = [], stderr = [], trace = []\<rparr>)) ''nowhere.json'' = None"
  using missing_config_file [where platform = "''linux-x86_64''" and config_path = "''nowhere.json''"
      and w = "\<lparr>fs = Map.empty, stdout = [], stderr = [], trace = []\<rparr>",
      OF _ _ surjective_pairing]
  by (simp add: resolve_platform_def platform_resources_def)

lemma resolve_platform_no_newline:
  assumes "resolve_platform platform = Some rs"
  shows "LF \<notin> set platform \<and> LF \<notin> set (list_repr rs)"
proof -
  have "(platform, rs) \<in> set platform_resources"
    using assms unfolding resolve_platform_def by (rule map_of_SomeD)
  then consider
      "platform = ''macos-aarch64''"
        "rs = [''binaries/macos-aarch64/ffmpeg'', ''binaries/macos-aarch64/ffprobe'']"
    | "platform = ''macos-x86_64''"
        "rs = [''binaries/macos-x86_64/ffmpeg'', ''binaries/macos-x86_64/ffprobe'']"
    | "platform = ''linux-x86_64''"
        "rs = [''binaries/linux-x86_64/ffmpeg'', ''binaries/linux-x86_64/ffprobe'']"
    | "platform = ''windows-x86_64''"
        "rs = [''binaries/windows-x86_64/ffmpeg.exe'', ''binaries/windows-x86_64/ffprobe.exe'']"
    unfolding platform_resources_def by fastforce
  then show ?thesis
  proof cases
    case 1 then show ?thesis by (simp add: list_repr_def str_repr_def repr_char_def Let_def)
  next
    case 2 then show ?thesis by (simp add: list_repr_def str_repr_def repr_char_def Let_def)
  next
    case 3 then show ?thesis by (simp add: list_repr_def str_repr_def repr_char_def Let_def)
  next
    case 4 then show ?thesis by (simp add: list_repr_def str_repr_def repr_char_def Let_def)
  qed
qed

lemma run_Exit_0:
  assumes "update_tauri_config platform config_path w = (w1, r)" and "exit_status r = 0"
  shows "\<exists>rs. resolve_platform platform = Some rs
          \<and> stdout w1 = stdout w @ ''Successfully updated '' @ config_path @ [LF]
                @ ''Platform: '' @ platform @ [LF]
                @ ''Resources: '' @ list_repr rs @ [LF]
          \<and> stderr w1 = stderr w"
  using assms
  by (auto simp: update_tauri_config_def Let_def print_out_def print_err_def record_op_def
      split: option.splits node.splits sum.splits)

lemma loads_empty_object: "json_loads ''{}'' = Inr (JObj [])"
  by code_simp

lemma run_empty_object:
  "update_tauri_config ''linux-x86_64'' ''tauri.conf.json''
       \<lparr>fs = [''tauri.conf.json'' \<mapsto> File ''{}''], stdout = [], stderr = [], trace = []\<rparr>
     = (\<lparr>fs = [''tauri.conf.json'' \<mapsto> File
               (json_dumps (JObj [(''bundle'', JObj [(''resources'',
                     JArr [JStr ''binaries/linux-x86_64/ffmpeg'',
                           JStr ''binaries/linux-x86_64/ffprobe''])])]) @ [LF])],
         stdout = ''Successfully updated tauri.conf.json'' @ [LF]
                @ ''Platform: linux-x86_64'' @ [LF]
                @ ''Resources: ['' @ [SQ] @ ''binaries/linux-x86_64/ffmpeg'' @ [SQ] @ '', '' @ [SQ]
                @ ''binaries/linux-x86_64/ffprobe'' @ [SQ] @ '']'' @ [LF],
         stderr = [],
         trace = [Exists ''tauri.conf.json'', OpenRead ''tauri.conf.json'',
                  OpenWrite ''tauri.conf.json'']\<rparr>,
        Exit 0)"
  by (simp add: update_tauri_config_def resolve_linux loads_empty_object apply_resources_def
        list_repr_linux record_op_def print_out_def config_text_def)

text \<open>
  Claim C8, as amended. A run that ends with status 0 has printed three lines on the
  output stream, not two: the status message with the path of the file, the platform, and
  the list of resources; nothing goes to the error stream. (The count is of line feeds,
  for a path without one.) The claim as stated, two lines, fails on the run below.
\<close>

theorem success_prints_three_lines:
  assumes "update_tauri_config platform config_path w = (w1, r)" and "exit_status r = 0"
  shows "\<exists>rs. resolve_platform platform = Some rs
          \<and> stdout w1 = stdout w @ ''Successfully updated '' @ config_path @ [LF]
                @ ''Platform: '' @ platform @ [LF]
                @ ''Resources: '' @ list_repr rs @ [LF]
          \<and> stderr w1 = stderr w
          \<and> (LF \<notin> set config_path \<longrightarrow>
               length (filter (\<lambda>c. c = LF) (drop (length (stdout w)) (stdout w1))) = 3)"
proof -
  from run_Exit_0 [OF assms] obtain rs where rs: "resolve_platform platform = Some rs"
    and out: "stdout w1 = stdout w @ ''Successfully updated '' @ config_path @ [LF]
                @ ''Platform: '' @ platform @ [LF]
                @ ''Resources: '' @ list_repr rs @ [LF]"
    and err: "stderr w1 = stderr w" by blast
  have nl: "LF \<notin> set platform" "LF \<notin> set (list_repr rs)"
    using resolve_platform_no_newline [OF rs] by simp_all
  have f: "\<And>s. LF \<notin> set s \<Longrightarrow> filter (\<lambda>c. c = LF) s = []"
  proof -
    fix s :: string
    show "LF \<notin> set s \<Longrightarrow> filter (\<lambda>c. c = LF) s = []"
      by (induction s) auto
  qed
  have "LF \<notin> set config_path \<Longrightarrow>
        length (filter (\<lambda>c. c = LF) (drop (length (stdout w)) (stdout w1))) = 3"
    by (simp add: out f nl)
  with rs out err show ?thesis by blast
qed


theorem success_prints_three_lines_witness:
  "stdout (fst (update_tauri_config ''linux-x86_64'' ''tauri.conf.json''
       \<lparr>fs = [''tauri.conf.json'' \<mapsto> File ''{}''], stdout = [], stderr = [], trace = []\<rparr>))
   = ''Successfully updated tauri.conf.json'' @ [LF]
     @ ''Platform: linux-x86_64'' @ [LF]
     @ ''Resources: '' @ list_repr [''binaries/linux-x86_64/ffmpeg'', ''binaries/linux-x86_64/ffprobe'']
     @ [LF]"
  using success_prints_three_lines [OF surjective_pairing,
      where platform = "''linux-x86_64''" and config_path = "''tauri.conf.json''"
        and w = "\<lparr>fs = [''tauri.conf.json'' \<mapsto> File ''{}''], stdout = [], stderr = [], trace = []\<rparr>"]
  by (simp add: run_empty_object resolve_linux)

theorem two_line_confirmation_counterexample:
  "exit_status (snd (update_tauri_config ''linux-x86_64'' ''tauri.conf.json''
       \<lparr>fs = [''tauri.conf.json'' \<mapsto> File ''{}''], stdout = [], stderr = [], trace = []\<rparr>)) = 0
   \<and> length (filter (\<lambda>c. c = LF)
        (stdout (fst (update_tauri_config ''linux-x86_64'' ''tauri.conf.json''
       \<lparr>fs = [''tauri.conf.json'' \<mapsto> File ''{}''], stdout = [], stderr = [], trace = []\<rparr>)))) \<noteq> 2"
  by (simp add: run_empty_object)

text \<open>
  Claim C10. When the document is an object whose key \<^verbatim>\<open>bundle\<close> holds something that is
  not an object, line 61 raises \<^verbatim>\<open>TypeError\<close>: the value is not replaced, the run ends
  with status 1 before the file is opened for writing, and the file is as it was.
\<close>

theorem bundle_not_object_raises:
  assumes "resolve_platform platform = Some rs"
    and "fs w config_path = Some (File content)"
    and "json_loads content = Inr (JObj d)"
    and "dict_get d ''bundle'' = Some b"
    and "\<not> is_object b"
    and "update_tauri_config platform config_path w = (w1, r)"
  shows "apply_resources (JObj d) rs = Inl TypeError
       \<and> r = Uncaught TypeError \<and> exit_status r = 1
       \<and> fs w1 = fs w
       \<and> trace w1 = trace w @ [Exists config_path, OpenRead config_path]
       \<and> stdout w1 = stdout w"
proof -
  have a: "apply_resources (JObj d) rs = Inl TypeError"
    using assms(4,5) by (rule apply_resources_bundle_not_object)
  show ?thesis
    using assms(6)
    by (auto simp: update_tauri_config_def assms(1,2,3) a record_op_def Let_def)
qed

lemma loads_bundle_5: "json_loads ''{\"bundle\": 5}'' = Inr (JObj [(''bundle'', JInt 5)])"
  by code_simp

theorem bundle_not_object_raises_witness:
  "snd (update_tauri_config ''linux-x86_64'' ''tauri.conf.json''
       \<lparr>fs = [''tauri.conf.json'' \<mapsto> File ''{\"bundle\": 5}''],
        stdout = [], stderr = [], trace = []\<rparr>) = Uncaught TypeError
   \<and> fs (fst (update_tauri_config ''linux-x86_64'' ''tauri.conf.json''
       \<lparr>fs = [''tauri.conf.json'' \<mapsto> File ''{\"bundle\": 5}''],
        stdout = [], stderr = [], trace = []\<rparr>)) ''tauri.conf.json''
     = Some (File ''{\"bundle\": 5}'')"
  using bundle_not_object_raises [OF resolve_linux _ loads_bundle_5 _ _ surjective_pairing,
      where b = "JInt 5" and config_path = "''tauri.conf.json''"
        and w = "\<lparr>fs = [''tauri.conf.json'' \<mapsto> File ''{\"bundle\": 5}''],
                  stdout = [], stderr = [], trace = []\<rparr>"]
  by simp






section \<open>The decoder reads back what the encoder writes\<close>

subsection \<open>From the text to the tokens\<close>

lemma push_tokens_Nil: "push_tokens [] r = r"
  by (simp add: push_tokens_def split: sum.splits)

lemma push_tokens_append: "push_tokens ts (push_tokens us r) = push_tokens (ts @ us) r"
  by (simp add: push_tokens_def split: sum.splits)

lemma push_token_eq: "push_token t r = push_tokens [t] r"
  by (simp add: push_tokens_def push_token_def split: sum.splits)

lemma lex_spaces: "lex (replicate n (CHR '' '') @ rest) = lex rest"
  by (induction n) (simp_all add: is_ws_def)

lemma lex_newline_indent: "lex (newline_indent level @ rest) = lex rest"
  by (simp add: newline_indent_def is_ws_def lex_spaces)

lemma below_16:
  assumes "k < 16"
  obtains "k = 0" | "k = 1" | "k = 2" | "k = 3" | "k = 4" | "k = 5" | "k = 6" | "k = 7"
    | "k = 8" | "k = 9" | "k = 10" | "k = 11" | "k = 12" | "k = 13" | "k = 14" | "k = (15::nat)"
proof -
  have "k \<in> {0, 1, 2, 3, 4, 5, 6, 7, 8, 9, 10, 11, 12, 13, 14, 15}"
    using assms by simp arith
  then show thesis using that by blast
qed

lemma hex_val_hex_digit: "n < 16 \<Longrightarrow> hex_val (hex_digit n) = Some n"
  by (erule below_16) (simp_all add: hex_val_def hex_digit_def is_digit_def)

lemma is_digit_hex_digit: "n < 10 \<Longrightarrow> is_digit (hex_digit n)"
  by (rule below_16 [of n]) (simp_all add: hex_digit_def is_digit_def)

lemma digit_val_hex_digit: "n < 10 \<Longrightarrow> digit_val (hex_digit n) = n"
  by (rule below_16 [of n]) (simp_all add: hex_digit_def digit_val_def)

lemma hex_digit_zero: "n < 10 \<Longrightarrow> hex_digit n = CHR ''0'' \<longleftrightarrow> n = 0"
  by (rule below_16 [of n]) (simp_all add: hex_digit_def)


lemma lex_string_escape_char:
  "lex_string acc (escape_char c @ rest) = lex_string (c # acc) rest"
proof -
  consider "c = BSL" | "c = DQ" | "c = CHR 0x08" | "c = CHR 0x0C" | "c = LF" | "c = CHR 0x0D"
    | "c = CHR 0x09"
    | "c \<noteq> BSL" "c \<noteq> DQ" "c \<noteq> CHR 0x08" "c \<noteq> CHR 0x0C" "c \<noteq> LF" "c \<noteq> CHR 0x0D"
      "c \<noteq> CHR 0x09" "(of_char c :: nat) < 0x20"
    | "c \<noteq> BSL" "c \<noteq> DQ" "\<not> (of_char c :: nat) < 0x20"
    by fastforce
  then show ?thesis
  proof cases
    case 8
    let ?n = "of_char c :: nat"
    have d: "?n div 16 < 16" "?n mod 16 < 16" using 8 by simp_all
    have h: "decode_hex4 [CHR ''0'', CHR ''0'', hex_digit (?n div 16), hex_digit (?n mod 16)]
               = Some ?n"
      by (simp add: decode_hex4_def hex_val_hex_digit d) (simp add: hex_val_def is_digit_def)
    have e: "escape_char c = [BSL, CHR ''u'', CHR ''0'', CHR ''0'',
               hex_digit (?n div 16), hex_digit (?n mod 16)]"
      using 8 by (simp add: escape_char_def)
    show ?thesis
      using 8(8) by (simp add: e h)
  next
    case 9
    then have e: "escape_char c = [c]"
      by (auto simp: escape_char_def)
    show ?thesis using 9 by (simp add: e)
  qed (simp_all add: escape_char_def unescape_def)
qed

lemma lex_string_escaped:
  "lex_string acc (concat (map escape_char s) @ DQ # rest)
     = push_token (TString (rev acc @ s)) (lex rest)"
proof (induction s arbitrary: acc)
  case Nil
  show ?case by simp
next
  case (Cons c s)
  have "lex_string acc (concat (map escape_char (c # s)) @ DQ # rest)
          = lex_string acc (escape_char c @ (concat (map escape_char s) @ DQ # rest))"
    by simp
  also have "\<dots> = lex_string (c # acc) (concat (map escape_char s) @ DQ # rest)"
    by (rule lex_string_escape_char)
  also have "\<dots> = push_token (TString (rev (c # acc) @ s)) (lex rest)"
    by (rule Cons.IH)
  finally show ?case by simp
qed

lemma lex_encode_basestring:
  "lex (encode_basestring s @ rest) = push_token (TString s) (lex rest)"
  using lex_string_escaped [of "[]" s rest]
  by (simp add: encode_basestring_def is_ws_def)


declare digits10.simps [simp del]

lemma ends_number_not_float: "ends_number rest \<Longrightarrow> \<not> starts_float rest"
  by (auto simp: ends_number_def starts_float_def split: list.splits)

lemma lex_int_end:
  "ends_number rest \<Longrightarrow> lex_int negative n rest = push_token (int_token negative n) (lex rest)"
proof (cases rest)
  case Nil
  then show ?thesis by (simp add: push_token_def)
next
  case (Cons c cs)
  assume e: "ends_number rest"
  then have "\<not> is_digit c" using Cons by (auto simp: ends_number_def is_digit_def)
  moreover have "\<not> starts_float (c # cs)" using e Cons ends_number_not_float by blast
  ultimately show ?thesis using Cons by simp
qed

lemma lex_int_digits10:
  "lex_int negative a (digits10 n @ rest)
     = lex_int negative (a * 10 ^ length (digits10 n) + n) rest"
proof (induction n arbitrary: a rest rule: digits10.induct)
  case (1 n)
  show ?case
  proof (cases "n < 10")
    case True
    then show ?thesis
      by (simp add: digits10.simps [of n] is_digit_hex_digit digit_val_hex_digit mult.commute)
  next
    case False
    have m: "n mod 10 < 10" by simp
    have "lex_int negative a (digits10 n @ rest)
            = lex_int negative a (digits10 (n div 10) @ (hex_digit (n mod 10) # rest))"
      using False by (simp add: digits10.simps [of n])
    also have "\<dots> = lex_int negative (a * 10 ^ length (digits10 (n div 10)) + n div 10)
                        (hex_digit (n mod 10) # rest)"
      using False by (rule "1.IH")
    also have "\<dots> = lex_int negative
                        (10 * (a * 10 ^ length (digits10 (n div 10)) + n div 10) + n mod 10) rest"
      using m by (simp add: is_digit_hex_digit digit_val_hex_digit)
    also have "10 * (a * 10 ^ length (digits10 (n div 10)) + n div 10) + n mod 10
                 = a * 10 ^ length (digits10 n) + n"
      using False by (simp add: digits10.simps [of n] algebra_simps)
    finally show ?thesis .
  qed
qed

lemma digits10_head:
  "0 < n \<Longrightarrow> \<exists>c cs. digits10 n = c # cs \<and> is_digit c \<and> c \<noteq> CHR ''0''"
proof (induction n rule: digits10.induct)
  case (1 n)
  show ?case
  proof (cases "n < 10")
    case True
    with "1.prems" show ?thesis
      by (simp add: digits10.simps [of n] is_digit_hex_digit hex_digit_zero)
  next
    case False
    then have "0 < n div 10" by simp
    with False "1.IH" obtain c cs where "digits10 (n div 10) = c # cs" "is_digit c" "c \<noteq> CHR ''0''"
      by blast
    with False show ?thesis by (simp add: digits10.simps [of n])
  qed
qed

lemma lex_digit_start:
  assumes "is_digit c" and "c \<noteq> CHR ''0''"
  shows "lex (c # cs) = lex_int False (digit_val c) cs"
proof -
  have "c = CHR ''1'' \<or> c = CHR ''2'' \<or> c = CHR ''3'' \<or> c = CHR ''4'' \<or> c = CHR ''5''
      \<or> c = CHR ''6'' \<or> c = CHR ''7'' \<or> c = CHR ''8'' \<or> c = CHR ''9''"
    using assms by (simp add: is_digit_def)
  then show ?thesis
    by (elim disjE) (simp_all add: is_ws_def is_digit_def)
qed

lemma lex_minus_digit:
  "is_digit d \<Longrightarrow> d \<noteq> CHR ''0'' \<Longrightarrow> lex (CHR ''-'' # d # ds) = lex_int True (digit_val d) ds"
  by (simp add: is_digit_def is_ws_def)

lemma lex_digits10:
  assumes "ends_number rest"
  shows "lex (digits10 n @ rest) = push_token (TInt (int n)) (lex rest)"
proof (cases "n = 0")
  case True
  then show ?thesis
    using ends_number_not_float [OF assms]
    by (simp add: digits10.simps [of 0] hex_digit_def is_ws_def)
next
  case False
  then obtain c cs where d: "digits10 n = c # cs" and c: "is_digit c" "c \<noteq> CHR ''0''"
    using digits10_head [of n] by auto
  have "lex (digits10 n @ rest) = lex_int False (digit_val c) (cs @ rest)"
    by (simp only: d append_Cons lex_digit_start [OF c])
  also have "\<dots> = lex_int False 0 (digits10 n @ rest)"
    using c by (simp add: d)
  also have "\<dots> = lex_int False n rest"
    by (simp add: lex_int_digits10)
  also have "\<dots> = push_token (int_token False n) (lex rest)"
    using assms by (rule lex_int_end)
  finally show ?thesis by (simp add: int_token_def)
qed

lemma lex_minus_digits10:
  assumes "ends_number rest" and "0 < n"
  shows "lex (CHR ''-'' # digits10 n @ rest) = push_token (TInt (- int n)) (lex rest)"
proof -
  obtain c cs where d: "digits10 n = c # cs" and c: "is_digit c" "c \<noteq> CHR ''0''"
    using digits10_head [OF assms(2)] by auto
  have "lex (CHR ''-'' # digits10 n @ rest) = lex_int True (digit_val c) (cs @ rest)"
    by (simp only: d append_Cons lex_minus_digit [OF c])
  also have "\<dots> = lex_int True 0 (digits10 n @ rest)"
    using c by (simp add: d)
  also have "\<dots> = lex_int True n rest"
    by (simp add: lex_int_digits10)
  also have "\<dots> = push_token (int_token True n) (lex rest)"
    using assms(1) by (rule lex_int_end)
  finally show ?thesis by (simp add: int_token_def)
qed

lemma lex_int_repr:
  assumes "ends_number rest"
  shows "lex (int_repr i @ rest) = push_token (TInt i) (lex rest)"
proof (cases "i < 0")
  case True
  then have "0 < nat (- i)" by simp
  from lex_minus_digits10 [OF assms this] True show ?thesis
    by (simp add: int_repr_def)
next
  case False
  with lex_digits10 [OF assms, of "nat i"] show ?thesis
    by (simp add: int_repr_def)
qed

lemma ends_number_simps:
  "ends_number []"
  "ends_number (newline_indent level @ rest)"
  "ends_number (CHR '','' # rest)"
  "ends_number (LF # rest)"
  by (simp_all add: ends_number_def newline_indent_def)

lemma lex_encode:
  "ends_number rest \<Longrightarrow> lex (encode level d @ rest) = push_tokens (tokens d) (lex rest)"
  "ends_number rest \<Longrightarrow>
     lex (encode_elems level xs @ rest) = push_tokens (tokens_elems xs) (lex rest)"
  "ends_number rest \<Longrightarrow>
     lex (encode_members level kvs @ rest) = push_tokens (tokens_members kvs) (lex rest)"
proof (induction level d and level xs and level kvs arbitrary: rest and rest and rest
    rule: encode_encode_elems_encode_members.induct)
  case (1 level)
  show ?case by (simp add: is_ws_def is_digit_def push_token_eq)
next
  case (2 level b)
  show ?case by (simp add: is_ws_def is_digit_def push_token_eq)
next
  case (3 level i)
  then show ?case by (simp add: lex_int_repr push_token_eq)
next
  case (4 level s)
  show ?case by (simp add: lex_encode_basestring push_token_eq)
next
  case (5 level)
  show ?case by (simp add: is_ws_def is_digit_def push_token_eq push_tokens_append)
next
  case (6 level x xs)
  show ?case
    by (simp add: is_ws_def is_digit_def push_token_eq push_tokens_append
        lex_newline_indent "6.IH" ends_number_simps)
next
  case (7 level)
  show ?case by (simp add: is_ws_def is_digit_def push_token_eq push_tokens_append)
next
  case (8 level kv kvs)
  show ?case
    by (simp add: is_ws_def is_digit_def push_token_eq push_tokens_append
        lex_newline_indent "8.IH" ends_number_simps)
next
  case (9 level)
  show ?case by (simp add: push_tokens_Nil)
next
  case (10 level x)
  then show ?case by simp
next
  case (11 level x y ys)
  show ?case
    by (simp add: is_ws_def is_digit_def push_token_eq push_tokens_append
        lex_newline_indent "11.IH" "11.prems" ends_number_simps)
next
  case (12 level)
  show ?case by (simp add: push_tokens_Nil)
next
  case (13 level k v)
  show ?case
    by (simp add: is_ws_def is_digit_def push_token_eq push_tokens_append
        lex_encode_basestring "13.IH" "13.prems")
next
  case (14 level k v kv kvs)
  show ?case
    by (simp add: is_ws_def is_digit_def push_token_eq push_tokens_append
        lex_encode_basestring lex_newline_indent "14.IH" "14.prems" ends_number_simps
       )
qed

lemma lex_json_dumps: "lex (json_dumps d @ [LF]) = Inr (tokens d)"
  using lex_encode(1) [of "[LF]" 0 d]
  by (simp add: json_dumps_def ends_number_simps is_ws_def push_tokens_def)

subsection \<open>From the tokens to the document\<close>

declare parse_elems.simps [simp del] parse_pairs.simps [simp del]

lemma tokens_head:
  "\<exists>t ts. tokens d = t # ts \<and> t \<noteq> TRBracket \<and> t \<noteq> TRBrace"
proof (cases d)
  case (JArr xs)
  then show ?thesis by (cases xs) simp_all
next
  case (JObj kvs)
  then show ?thesis by (cases kvs) simp_all
qed simp_all

lemma tokens_elems_head:
  "xs \<noteq> [] \<Longrightarrow> \<exists>t ts. tokens_elems xs = t # ts \<and> t \<noteq> TRBracket"
proof (cases xs)
  case (Cons x ys)
  obtain t ts where "tokens x = t # ts" "t \<noteq> TRBracket" using tokens_head by blast
  with Cons show ?thesis by (cases ys) simp_all
qed simp

lemma tokens_members_head:
  "kvs \<noteq> [] \<Longrightarrow> \<exists>t ts. tokens_members kvs = t # ts \<and> t \<noteq> TRBrace"
proof (cases kvs)
  case (Cons kv ys)
  then show ?thesis by (cases kv; cases ys) simp_all
qed simp

lemma parse_value_array:
  "ts = t # ts' \<Longrightarrow> t \<noteq> TRBracket \<Longrightarrow>
   parse_value (TLBracket # ts)
     = (case parse_elems ts of Inl e \<Rightarrow> Inl e | Inr (xs, r) \<Rightarrow> Inr (JArr xs, r))"
  by (cases t) simp_all

lemma parse_value_object:
  "ts = t # ts' \<Longrightarrow> t \<noteq> TRBrace \<Longrightarrow>
   parse_value (TLBrace # ts)
     = (case parse_pairs ts of
          Inl e \<Rightarrow> Inl e
        | Inr (ps, r) \<Rightarrow> Inr (JObj (dict_of_pairs [] ps), r))"
  by (cases t) simp_all

lemma dict_set_fresh: "k \<notin> fst ` set d \<Longrightarrow> dict_set d k v = d @ [(k, v)]"
  by (induction d) auto

lemma dict_of_pairs_distinct:
  "distinct (map fst (d @ kvs)) \<Longrightarrow> dict_of_pairs d kvs = d @ kvs"
proof (induction kvs arbitrary: d)
  case Nil
  show ?case by simp
next
  case (Cons kv kvs)
  obtain k v where kv: "kv = (k, v)" by (cases kv)
  have "k \<notin> fst ` set d" using Cons.prems by (auto simp: kv)
  then have s: "dict_set d k v = d @ [(k, v)]" by (rule dict_set_fresh)
  have "distinct (map fst ((d @ [(k, v)]) @ kvs))" using Cons.prems by (simp add: kv)
  then have "dict_of_pairs (d @ [(k, v)]) kvs = (d @ [(k, v)]) @ kvs" by (rule Cons.IH)
  then show ?case by (simp add: kv s)
qed

lemma parse_tokens:
  "wf_json d \<Longrightarrow> parse_value (tokens d @ rest) = Inr (d, rest)"
  "wf_elems xs \<Longrightarrow> xs \<noteq> [] \<Longrightarrow>
     parse_elems (tokens_elems xs @ TRBracket # rest) = Inr (xs, rest)"
  "wf_members kvs \<Longrightarrow> kvs \<noteq> [] \<Longrightarrow>
     parse_pairs (tokens_members kvs @ TRBrace # rest) = Inr (kvs, rest)"
proof (induction d and xs and kvs arbitrary: rest and rest and rest
    rule: tokens_tokens_elems_tokens_members.induct)
  case 1
  show ?case by simp
next
  case (2 b)
  show ?case by simp
next
  case (3 i)
  show ?case by simp
next
  case (4 s)
  show ?case by simp
next
  case 5
  show ?case by simp
next
  case (6 x xs)
  obtain t ts where h: "tokens_elems (x # xs) @ TRBracket # rest = t # ts" "t \<noteq> TRBracket"
    using tokens_elems_head [of "x # xs"] by auto
  have "parse_elems (tokens_elems (x # xs) @ TRBracket # rest) = Inr (x # xs, rest)"
    using "6.prems" by (intro "6.IH") simp_all
  then show ?case
    using parse_value_array [OF h] by (simp del: parse_value.simps)
next
  case 7
  show ?case by simp
next
  case (8 kv kvs)
  obtain t ts where h: "tokens_members (kv # kvs) @ TRBrace # rest = t # ts" "t \<noteq> TRBrace"
    using tokens_members_head [of "kv # kvs"] by auto
  have "parse_pairs (tokens_members (kv # kvs) @ TRBrace # rest) = Inr (kv # kvs, rest)"
    using "8.prems" by (intro "8.IH") simp_all
  moreover have "dict_of_pairs [] (kv # kvs) = kv # kvs"
    using "8.prems" dict_of_pairs_distinct [of "[]" "kv # kvs"] by simp
  ultimately show ?case
    using parse_value_object [OF h] by (simp del: parse_value.simps)
next
  case 9
  then show ?case by simp
next
  case (10 x)
  then show ?case
    by (subst parse_elems.simps) simp
next
  case (11 x y ys)
  then show ?case
    by (subst parse_elems.simps) simp
next
  case 12
  then show ?case by simp
next
  case (13 k v)
  then show ?case
    by (subst parse_pairs.simps) simp
next
  case (14 k v kv kvs)
  then show ?case
    by (subst parse_pairs.simps) simp
qed

lemma json_loads_dumps_newline: "wf_json d \<Longrightarrow> json_loads (json_dumps d @ [LF]) = Inr d"
  using parse_tokens(1) [of d "[]"]
  by (simp add: json_loads_def lex_json_dumps)

subsection \<open>What the decoder returns repeats no key\<close>







subsection \<open>A value takes at least one token\<close>

lemma parse_shorter:
  "parse_value ts = Inr (v, r) \<Longrightarrow> length r < length ts"
  "parse_elems ts = Inr (xs, r) \<Longrightarrow> length r < length ts"
  "parse_pairs ts = Inr (ps, r) \<Longrightarrow> length r < length ts"
proof (induction ts and ts and ts arbitrary: v r and xs r and ps r
    rule: parse_value_parse_elems_parse_pairs.induct)
  case 1
  then show ?case by simp
next
  case (2 t ts)
  show ?case
  proof (cases t)
    case TLBrace
    show ?thesis
    proof (cases "\<exists>r'. ts = TRBrace # r'")
      case True
      with "2.prems" TLBrace show ?thesis by auto
    next
      case False
      with "2.prems" TLBrace obtain ps where p: "parse_pairs ts = Inr (ps, r)"
        by (auto split: list.splits token.splits sum.splits)
      have "length r < length ts"
        using False TLBrace p
        by (cases ts; cases "hd ts") (auto dest: "2.IH")
      then show ?thesis by simp
    qed
  next
    case TLBracket
    show ?thesis
    proof (cases "\<exists>r'. ts = TRBracket # r'")
      case True
      with "2.prems" TLBracket show ?thesis by auto
    next
      case False
      with "2.prems" TLBracket obtain xs where p: "parse_elems ts = Inr (xs, r)"
        by (auto split: list.splits token.splits sum.splits)
      have "length r < length ts"
        using False TLBracket p
        by (cases ts; cases "hd ts") (auto dest: "2.IH")
      then show ?thesis by simp
    qed
  qed (use "2.prems" in auto)
next
  case (3 ts)
  obtain x r1 where pv: "parse_value ts = Inr (x, r1)"
    using "3.prems" by (subst (asm) parse_elems.simps) (auto split: sum.splits)
  have l: "length r1 < length ts" using pv by (rule "3.IH"(1))
  have e: "parse_elems ts =
      (case r1 of
         TRBracket # r' \<Rightarrow> Inr ([x], r')
       | TComma # r' \<Rightarrow>
           if length r' < length ts then
             (case parse_elems r' of
                Inl e \<Rightarrow> Inl e
              | Inr (xs, r'') \<Rightarrow> Inr (x # xs, r''))
           else Inl JSONDecodeError
       | _ \<Rightarrow> Inl JSONDecodeError)"
    by (subst parse_elems.simps) (simp add: pv)
  show ?case
  proof (cases r1)
    case Nil
    with e "3.prems" show ?thesis by simp
  next
    case (Cons t r2)
    show ?thesis
    proof (cases t)
      case TRBracket
      with e "3.prems" Cons l show ?thesis by auto
    next
      case TComma
      with Cons l have g: "length r2 < length ts" by simp
      with e "3.prems" Cons TComma obtain ys where pe: "parse_elems r2 = Inr (ys, r)"
        by (auto split: sum.splits)
      have "length r < length r2"
        using pv refl Cons TComma g pe by (rule "3.IH"(2))
      with g show ?thesis by simp
    qed (use e "3.prems" Cons in auto)
  qed
next
  case (4 ts)
  obtain k ts' where ts: "ts = TString k # TColon # ts'"
    using "4.prems"
    by (subst (asm) parse_pairs.simps) (auto split: list.splits token.splits)
  obtain x r1 where pv: "parse_value ts' = Inr (x, r1)"
    using "4.prems" unfolding ts
    by (subst (asm) parse_pairs.simps) (auto split: sum.splits)
  have l: "length r1 < length ts'"
    using ts refl refl refl pv by (rule "4.IH"(1))
  have e: "parse_pairs ts =
      (case r1 of
         TRBrace # r' \<Rightarrow> Inr ([(k, x)], r')
       | TComma # r' \<Rightarrow>
           if length r' < length ts then
             (case parse_pairs r' of
                Inl e \<Rightarrow> Inl e
              | Inr (ps, r'') \<Rightarrow> Inr ((k, x) # ps, r''))
           else Inl JSONDecodeError
       | _ \<Rightarrow> Inl JSONDecodeError)"
    by (subst parse_pairs.simps) (simp add: pv ts)
  show ?case
  proof (cases r1)
    case Nil
    with e "4.prems" show ?thesis by simp
  next
    case (Cons t r2)
    show ?thesis
    proof (cases t)
      case TRBrace
      with e "4.prems" Cons l ts show ?thesis by auto
    next
      case TComma
      with Cons l ts have g: "length r2 < length ts" by simp
      with e "4.prems" Cons TComma obtain qs where pe: "parse_pairs r2 = Inr (qs, r)"
        by (auto split: sum.splits)
      have "length r < length r2"
        using ts refl refl refl pv refl Cons TComma g pe by (rule "4.IH"(2))
      with g show ?thesis by simp
    qed (use e "4.prems" Cons in auto)
  qed
qed

text \<open>So the test of the two loops never fails after a comma.\<close>

lemma parse_loops_go_round:
  "parse_value ts = Inr (x, TComma # r) \<Longrightarrow> length r < length ts"
  using parse_shorter(1) [of ts x "TComma # r"] by simp

section \<open>The layout of the written text\<close>

lemma line_indents_no_newline: "LF \<notin> set a \<Longrightarrow> line_indents (a @ b) = line_indents b"
  by (induction a) auto

lemma takeWhile_blanks:
  "c \<noteq> CHR '' '' \<Longrightarrow>
   takeWhile (\<lambda>x. x = CHR '' '') (replicate n (CHR '' '') @ c # r) = replicate n (CHR '' '')"
  by (induction n) simp_all

lemma line_indents_blanks: "line_indents (replicate n (CHR '' '') @ r) = line_indents r"
  by (induction n) simp_all

lemma line_indents_newline_indent:
  "c \<noteq> CHR '' '' \<Longrightarrow>
   line_indents (newline_indent level @ c # r) = 2 * level # line_indents (c # r)"
  by (simp add: newline_indent_def takeWhile_blanks line_indents_blanks)

lemma hex_digit_no_newline: "n < 16 \<Longrightarrow> hex_digit n \<noteq> LF"
  by (erule below_16) (simp_all add: hex_digit_def)

lemma escape_char_no_newline: "LF \<notin> set (escape_char c)"
proof (cases "(of_char c :: nat) < 0x20")
  case True
  then have "(of_char c :: nat) div 16 < 16" "(of_char c :: nat) mod 16 < 16" by simp_all
  then have "LF \<noteq> hex_digit (of_char c div 16)" "LF \<noteq> hex_digit (of_char c mod 16)"
    using hex_digit_no_newline by fastforce+
  then show ?thesis
    by (simp add: escape_char_def)
next
  case False
  then have "c \<noteq> LF" by auto
  with False show ?thesis by (simp add: escape_char_def)
qed

lemma encode_basestring_no_newline: "LF \<notin> set (encode_basestring s)"
  by (induction s) (use escape_char_no_newline in \<open>auto simp: encode_basestring_def\<close>)

lemma digits10_no_newline: "LF \<notin> set (digits10 n)"
proof (induction n rule: digits10.induct)
  case (1 n)
  have "n mod 10 < 16" by simp
  then have m: "hex_digit (n mod 10) \<noteq> LF" by (rule hex_digit_no_newline)
  show ?case
  proof (cases "n < 10")
    case True
    then show ?thesis using m by (simp add: digits10.simps [of n])
  next
    case False
    then show ?thesis using m "1.IH" by (simp add: digits10.simps [of n])
  qed
qed

lemma int_repr_no_newline: "LF \<notin> set (int_repr i)"
  by (simp add: int_repr_def digits10_no_newline)

lemma hex_digit_not_blank: "n < 16 \<Longrightarrow> hex_digit n \<noteq> CHR '' ''"
  by (erule below_16) (simp_all add: hex_digit_def)

lemma digits10_head_not_blank: "\<exists>c cs. digits10 n = c # cs \<and> c \<noteq> CHR '' ''"
proof (induction n rule: digits10.induct)
  case (1 n)
  show ?case
  proof (cases "n < 10")
    case True
    then have "n < 16" by simp
    then have "hex_digit n \<noteq> CHR '' ''" by (rule hex_digit_not_blank)
    with True show ?thesis by (simp add: digits10.simps [of n])
  next
    case False
    with "1.IH" obtain c cs where "digits10 (n div 10) = c # cs" "c \<noteq> CHR '' ''" by blast
    with False show ?thesis by (simp add: digits10.simps [of n])
  qed
qed

lemma encode_head: "\<exists>c cs. encode level d = c # cs \<and> c \<noteq> CHR '' ''"
proof (cases d)
  case (JInt i)
  obtain c cs where "digits10 (nat \<bar>i\<bar>) = c # cs" "c \<noteq> CHR '' ''"
    using digits10_head_not_blank by blast
  then show ?thesis
    using JInt by (cases "i < 0") (auto simp: int_repr_def abs_if)
next
  case (JArr xs)
  then show ?thesis by (cases xs) simp_all
next
  case (JObj kvs)
  then show ?thesis by (cases kvs) simp_all
qed (simp_all add: encode_basestring_def)

lemma encode_elems_head:
  "xs \<noteq> [] \<Longrightarrow> \<exists>c cs. encode_elems level xs = c # cs \<and> c \<noteq> CHR '' ''"
proof (cases xs)
  case (Cons x ys)
  obtain c cs where "encode level x = c # cs" "c \<noteq> CHR '' ''" using encode_head by blast
  with Cons show ?thesis by (cases ys) simp_all
qed simp

lemma encode_members_head:
  "kvs \<noteq> [] \<Longrightarrow> \<exists>c cs. encode_members level kvs = c # cs \<and> c \<noteq> CHR '' ''"
proof (cases kvs)
  case (Cons kv ys)
  then show ?thesis by (cases kv; cases ys) (simp_all add: encode_basestring_def)
qed simp

lemma line_indents_newline_elems:
  "xs \<noteq> [] \<Longrightarrow>
   line_indents (newline_indent k @ encode_elems level xs @ r)
     = 2 * k # line_indents (encode_elems level xs @ r)"
proof -
  assume "xs \<noteq> []"
  then obtain c cs where "encode_elems level xs = c # cs" "c \<noteq> CHR '' ''"
    using encode_elems_head by blast
  then show ?thesis using line_indents_newline_indent [of c k "cs @ r"] by simp
qed

lemma line_indents_newline_members:
  "kvs \<noteq> [] \<Longrightarrow>
   line_indents (newline_indent k @ encode_members level kvs @ r)
     = 2 * k # line_indents (encode_members level kvs @ r)"
proof -
  assume "kvs \<noteq> []"
  then obtain c cs where "encode_members level kvs = c # cs" "c \<noteq> CHR '' ''"
    using encode_members_head by blast
  then show ?thesis using line_indents_newline_indent [of c k "cs @ r"] by simp
qed

lemma line_indents_newline_bracket:
  "line_indents (newline_indent k @ CHR '']'' # r) = 2 * k # line_indents r"
  "line_indents (newline_indent k @ CHR ''}'' # r) = 2 * k # line_indents r"
  by (simp_all add: line_indents_newline_indent)

lemma line_indents_encode:
  "line_indents (encode level d @ rest)
     = map (\<lambda>m. 2 * m) (line_levels level d) @ line_indents rest"
  "line_indents (encode_elems level xs @ rest)
     = map (\<lambda>m. 2 * m) (line_levels_elems level xs) @ line_indents rest"
  "line_indents (encode_members level kvs @ rest)
     = map (\<lambda>m. 2 * m) (line_levels_members level kvs) @ line_indents rest"
proof (induction level d and level xs and level kvs arbitrary: rest and rest and rest
    rule: encode_encode_elems_encode_members.induct)
  case (3 level i)
  show ?case by (simp add: line_indents_no_newline [OF int_repr_no_newline])
next
  case (4 level s)
  show ?case by (simp add: line_indents_no_newline [OF encode_basestring_no_newline])
next
  case (6 level x xs)
  show ?case
    by (simp add: line_indents_newline_elems [of "x # xs"] "6.IH" line_indents_newline_bracket)
next
  case (8 level kv kvs)
  show ?case
    by (simp add: line_indents_newline_members [of "kv # kvs"] "8.IH"
        line_indents_newline_bracket)
next
  case (11 level x y ys)
  show ?case
    by (simp add: "11.IH" line_indents_newline_elems [of "y # ys"])
next
  case (13 level k v)
  show ?case
    by (simp add: line_indents_no_newline [OF encode_basestring_no_newline] "13.IH")
next
  case (14 level k v kv kvs)
  show ?case
    by (simp add: line_indents_no_newline [OF encode_basestring_no_newline] "14.IH"
        line_indents_newline_members [of "kv # kvs"])
qed simp_all

lemma line_indents_config_text:
  "line_indents (config_text d) = map (\<lambda>m. 2 * m) (line_levels 0 d) @ [0]"
  using line_indents_encode(1) [of 0 d "[LF]"]
  by (simp add: config_text_def json_dumps_def)

text \<open>
  Claim C9. The text written for a document is a function of the document alone. It ends
  with a line feed; the decoder reads the whole document back from it, the keys of every
  object in the order the document has them; so two documents with the same text are the
  same document, key order included; and every line after the first is indented by two
  blanks for each level of nesting.
\<close>

theorem config_text_layout:
  assumes "wf_json d"
  shows "last (config_text d) = LF
       \<and> json_loads (config_text d) = Inr d
       \<and> (\<forall>d'. wf_json d' \<longrightarrow> (config_text d' = config_text d \<longleftrightarrow> d' = d))
       \<and> line_indents (config_text d) = map (\<lambda>m. 2 * m) (line_levels 0 d) @ [0]"
proof (intro conjI allI impI)
  show "last (config_text d) = LF"
    by (simp add: config_text_def)
  show l: "json_loads (config_text d) = Inr d"
    using assms by (simp add: config_text_def json_loads_dumps_newline)
  show "line_indents (config_text d) = map (\<lambda>m. 2 * m) (line_levels 0 d) @ [0]"
    by (rule line_indents_config_text)
  fix d'
  assume w: "wf_json d'"
  show "config_text d' = config_text d \<longleftrightarrow> d' = d"
  proof
    assume e: "config_text d' = config_text d"
    have "json_loads (config_text d') = Inr d'"
      using w by (simp add: config_text_def json_loads_dumps_newline)
    then have "Inr d' = json_loads (config_text d)"
      by (simp only: e)
    then have "(Inr d' :: py_exn + json) = Inr d"
      by (simp only: l)
    then show "d' = d" by simp
  next
    assume "d' = d"
    then show "config_text d' = config_text d" by simp
  qed
qed

theorem config_text_layout_witness:
  "json_loads (config_text (JObj [(''otherKey'', JInt 1),
      (''bundle'', JObj [(''resources'',
         JArr [JStr ''binaries/linux-x86_64/ffmpeg'', JStr ''binaries/linux-x86_64/ffprobe''])])]))
   = Inr (JObj [(''otherKey'', JInt 1),
      (''bundle'', JObj [(''resources'',
         JArr [JStr ''binaries/linux-x86_64/ffmpeg'', JStr ''binaries/linux-x86_64/ffprobe''])])])
   \<and> line_indents (config_text (JObj [(''otherKey'', JInt 1),
      (''bundle'', JObj [(''resources'',
         JArr [JStr ''binaries/linux-x86_64/ffmpeg'', JStr ''binaries/linux-x86_64/ffprobe''])])]))
   = [2, 2, 4, 6, 6, 4, 2, 0, 0]"
  using config_text_layout [of "JObj [(''otherKey'', JInt 1),
      (''bundle'', JObj [(''resources'',
         JArr [JStr ''binaries/linux-x86_64/ffmpeg'', JStr ''binaries/linux-x86_64/ffprobe''])])]"]
  by simp

section \<open>The round trip through the file\<close>









end
